theory Spec2Isabelle
  imports Complex_Main
begin

section \<open>Python values used by the analyser\<close>

text \<open>
  A Python \<^verbatim>\<open>str\<close> is a \<open>string\<close> (a list of 8-bit characters); the character
  classes below are the ASCII part of Python's classes, so the model covers ASCII text.
  A Python \<^verbatim>\<open>int\<close> is an \<open>int\<close>. A Python \<^verbatim>\<open>float\<close> is a \<open>rat\<close>: the
  arithmetic of the source is taken exactly, without the rounding error of binary
  floating point. A JSON object is a datatype whose optional keys are \<open>option\<close> fields;
  the section on plan nodes says what \<open>None\<close> stands for, key by key.
\<close>

datatype py_error = AttributeError | KeyError | DatabaseError string

text \<open>\<^verbatim>\<open>s.startswith(p)\<close>, \<^verbatim>\<open>s.endswith(p)\<close> and \<^verbatim>\<open>p in s\<close>.\<close>

fun startswith :: "string \<Rightarrow> string \<Rightarrow> bool" where
  "startswith s [] = True"
| "startswith [] (p # ps) = False"
| "startswith (c # cs) (p # ps) = (c = p \<and> startswith cs ps)"

definition endswith :: "string \<Rightarrow> string \<Rightarrow> bool" where
  "endswith s p = startswith (rev s) (rev p)"

fun str_in :: "string \<Rightarrow> string \<Rightarrow> bool" where
  "str_in p [] = (p = [])"
| "str_in p (c # cs) = (startswith (c # cs) p \<or> str_in p cs)"

text \<open>\<^verbatim>\<open>sep.join(xs)\<close>.\<close>

fun join :: "string \<Rightarrow> string list \<Rightarrow> string" where
  "join sep [] = []"
| "join sep [x] = x"
| "join sep (x # y # ys) = x @ sep @ join sep (y # ys)"

text \<open>The ASCII characters for which \<^verbatim>\<open>str.isspace\<close> holds (also the \<^verbatim>\<open>\s\<close> of \<^verbatim>\<open>re\<close>).\<close>

definition isspace :: "char \<Rightarrow> bool" where
  "isspace c = (let n = of_char c :: nat in (9 \<le> n \<and> n \<le> 13) \<or> (28 \<le> n \<and> n \<le> 32))"

text \<open>\<^verbatim>\<open>s.strip()\<close>.\<close>

definition strip :: "string \<Rightarrow> string" where
  "strip s = rev (dropWhile isspace (rev (dropWhile isspace s)))"

text \<open>
  \<^verbatim>\<open>round(x, 2)\<close>: the nearest multiple of 1/100, a tie going to the even one.
\<close>

definition round_half_even :: "rat \<Rightarrow> int" where
  "round_half_even y =
     (let f = \<lfloor>y\<rfloor>; d = y - of_int f
      in if d < 1 / 2 then f else if 1 / 2 < d then f + 1 else if even f then f else f + 1)"

definition round2 :: "rat \<Rightarrow> rat" where
  "round2 x = of_int (round_half_even (x * 100)) / 100"

text \<open>\<^verbatim>\<open>int(x)\<close> of a float: truncation towards zero.\<close>

definition py_int :: "rat \<Rightarrow> int" where
  "py_int x = (if 0 \<le> x then \<lfloor>x\<rfloor> else \<lceil>x\<rceil>)"

section \<open>Plan nodes\<close>

text \<open>
  One node of the JSON plan of \<^verbatim>\<open>EXPLAIN (FORMAT JSON)\<close>, with the keys the analyser
  reads: "Node Type", "Total Cost", "Plan Rows", "Plan Width", "Startup Cost",
  "Relation Name", "Filter", "Join Filter", "Sort Key" and "Plans".

  A key that is present holds a value of the JSON type that \<^verbatim>\<open>EXPLAIN\<close> gives it: a
  string for "Node Type", "Relation Name", "Filter" and "Join Filter", a number for
  "Total Cost", "Startup Cost", "Plan Rows" and "Plan Width", a list of strings for
  "Sort Key", a list of nodes for "Plans". What \<open>None\<close> stands for depends on how the
  source reads the key:
  \<^item> "Total Cost", "Plan Rows", "Plan Width" and "Startup Cost" are read with the
    default 0, so \<open>None\<close> is the missing key and nothing else. A JSON \<^verbatim>\<open>null\<close> under
    one of these keys is not a value of the model: \<^verbatim>\<open>dict.get\<close> would return the
    stored \<^verbatim>\<open>None\<close>, not the default, and the arithmetic of lines 22 to 24 would raise
    \<^verbatim>\<open>TypeError\<close>. The same holds for "Plans", read with the default \<^verbatim>\<open>[]\<close>: the
    field is a list, empty for the missing key, and a \<^verbatim>\<open>null\<close> is not modelled.
  \<^item> "Relation Name", "Filter", "Join Filter" and "Sort Key" are read without a
    default and only tested for truth, so \<open>None\<close> is the missing key or \<^verbatim>\<open>null\<close>: the
    source sees the Python \<^verbatim>\<open>None\<close> in both cases.
  \<^item> "Node Type" is read without a default by \<^verbatim>\<open>extract_metrics\<close>, which sees
    \<^verbatim>\<open>None\<close> for the missing key and for \<^verbatim>\<open>null\<close> alike; \<^verbatim>\<open>walk\<close> reads it with the
    default \<^verbatim>\<open>""\<close> and only compares it with "Seq Scan" and "Nested Loop", which
    neither \<^verbatim>\<open>""\<close> nor \<^verbatim>\<open>None\<close> equals. So \<open>None\<close> is the missing key or \<^verbatim>\<open>null\<close>.
\<close>

datatype plan = Plan
  (node_type: "string option")
  (total_cost: "rat option")
  (plan_rows: "int option")
  (plan_width: "int option")
  (startup_cost: "rat option")
  (relation_name: "string option")
  (plan_filter: "string option")
  (plan_join_filter: "string option")
  (plan_sort_key: "string list option")
  (plans: "plan list")

text \<open>\<^verbatim>\<open>d.get(key, default)\<close> for a key that is missing (\<open>None\<close>) or holds a value.\<close>

definition get_default :: "'a option \<Rightarrow> 'a \<Rightarrow> 'a" where
  "get_default v d = (case v of None \<Rightarrow> d | Some x \<Rightarrow> x)"

section \<open>The plan metrics extractor (info_about_query.py)\<close>

text \<open>
  The recommendation strings of \<^verbatim>\<open>extract_metrics\<close> are fixed texts with values
  formatted into them; a message is modelled by its template and the values it shows:
  the rows of the full-scan warning, the node type, \<^verbatim>\<open>mb\<close> and \<^verbatim>\<open>int(mb*2)\<close> of the
  \<^verbatim>\<open>work_mem\<close> advice, the cost of the partitioning advice.
\<close>

datatype advice =
    FullScanAdvice int
  | ParallelAdvice
  | WorkMemAdvice string rat int
  | NestedLoopAdvice
  | PartitionAdvice rat

datatype annotated = Annotated
  (a_node_type: string)
  (a_cost: rat)
  (a_cpu_ms: rat)
  (a_io_ms: rat)
  (a_total_ms: rat)
  (a_rows: int)
  (a_width: int)
  (a_startup_cost: rat)
  (a_memory_estimate_mb: rat)
  (a_recommendations: "advice list")
  (a_children: "annotated list")

text \<open>Lines 22 to 25: the derived figures of one node.\<close>

definition cpu_cost :: "int \<Rightarrow> rat \<Rightarrow> rat" where
  "cpu_cost rows cpu_tuple_cost = of_int rows * cpu_tuple_cost"

definition io_cost :: "rat \<Rightarrow> rat \<Rightarrow> rat" where
  "io_cost cost cpu = max (cost - cpu) 0"

definition memory_bytes :: "int \<Rightarrow> int \<Rightarrow> int" where
  "memory_bytes rows width = rows * width"

definition runtime_ms :: "rat \<Rightarrow> rat" where
  "runtime_ms cost = cost"

text \<open>Lines 27 to 40: the five independent heuristics, in the order of the source.\<close>

definition node_advice :: "string \<Rightarrow> rat \<Rightarrow> int \<Rightarrow> int \<Rightarrow> advice list" where
  "node_advice nt cost rows mem =
     (let mb = of_int mem / (1024 * 1024)
      in (if endswith nt ''Seq Scan'' \<and> rows > 100000 then [FullScanAdvice rows] else [])
       @ (if str_in ''Parallel'' nt then [ParallelAdvice] else [])
       @ (if nt \<in> set [''Hash'', ''Sort''] \<and> mem > 10 * 1024 * 1024
          then [WorkMemAdvice nt mb (py_int (mb * 2))] else [])
       @ (if nt = ''Nested Loop'' \<and> rows > 50000 then [NestedLoopAdvice] else [])
       @ (if cost > 100000 \<and> nt \<in> set [''Seq Scan'', ''Bitmap Heap Scan'']
          then [PartitionAdvice cost] else []))"

text \<open>Lines 16 to 40 and 44 to 56 for a node whose type is a string: the returned dictionary.\<close>

definition annotate ::
  "rat \<Rightarrow> string \<Rightarrow> rat \<Rightarrow> int \<Rightarrow> int \<Rightarrow> rat \<Rightarrow> annotated list \<Rightarrow> annotated" where
  "annotate cpu_tuple_cost nt cost rows width startup children =
     Annotated nt cost
       (round2 (cpu_cost rows cpu_tuple_cost))
       (round2 (io_cost cost (cpu_cost rows cpu_tuple_cost)))
       (round2 (runtime_ms cost))
       rows width startup
       (round2 (of_int (memory_bytes rows width) / (1024 * 1024)))
       (node_advice nt cost rows (memory_bytes rows width))
       children"

text \<open>The default parameters of \<^verbatim>\<open>extract_metrics\<close>: 1.0 and 0.01.\<close>

definition default_seq_page_cost :: rat where
  "default_seq_page_cost = 1"

definition default_cpu_tuple_cost :: rat where
  "default_cpu_tuple_cost = 1 / 100"

text \<open>
  \<^verbatim>\<open>extract_metrics(plan, seq_page_cost, cpu_tuple_cost)\<close>. The node type is read
  without a default, and \<^verbatim>\<open>node_type.endswith\<close> raises \<^verbatim>\<open>AttributeError\<close> on
  \<^verbatim>\<open>None\<close>, before the children are visited. The children are extracted with the
  default parameters, whatever the caller passed; the first child that raises ends
  the list comprehension.
\<close>

fun extract_metrics :: "rat \<Rightarrow> rat \<Rightarrow> plan \<Rightarrow> py_error + annotated"
  and extract_children :: "plan list \<Rightarrow> py_error + annotated list" where
  "extract_metrics seq_page_cost cpu_tuple_cost (Plan nt tc pr pw sc rn fc jf sk ps) =
     (case nt of
        None \<Rightarrow> Inl AttributeError
      | Some t \<Rightarrow>
          (case extract_children ps of
             Inl e \<Rightarrow> Inl e
           | Inr children \<Rightarrow>
               Inr (annotate cpu_tuple_cost t (get_default tc 0) (get_default pr 0)
                      (get_default pw 0) (get_default sc 0) children)))"
| "extract_children [] = Inr []"
| "extract_children (c # cs) =
     (case extract_metrics default_seq_page_cost default_cpu_tuple_cost c of
        Inl e \<Rightarrow> Inl e
      | Inr a \<Rightarrow> (case extract_children cs of Inl e \<Rightarrow> Inl e | Inr as \<Rightarrow> Inr (a # as)))"

text \<open>
  The shape of a tree: at each node the node type and the copied fields (cost, rows,
  width, startup cost), and the shapes of the children in order.
\<close>

datatype shape = Shape "string option" rat int int rat "shape list"

fun plan_shape :: "plan \<Rightarrow> shape" where
  "plan_shape (Plan nt tc pr pw sc rn fc jf sk ps) =
     Shape nt (get_default tc 0) (get_default pr 0) (get_default pw 0) (get_default sc 0)
       (map plan_shape ps)"

fun annotated_shape :: "annotated \<Rightarrow> shape" where
  "annotated_shape (Annotated t c cpu io tot r w sc mem recs children) =
     Shape (Some t) c r w sc (map annotated_shape children)"

text \<open>Every node of the tree carries a node type.\<close>

fun typed :: "plan \<Rightarrow> bool" where
  "typed (Plan nt tc pr pw sc rn fc jf sk ps) = (nt \<noteq> None \<and> list_all typed ps)"






section \<open>The index advisor (rec_query.py)\<close>

subsection \<open>Column extraction\<close>

text \<open>
  The pattern of \<^verbatim>\<open>extract_columns_from_filter\<close> is
  \<^verbatim>\<open>\b([a-zA-Z_][a-zA-Z0-9_]*)\s*(=|>|<|>=|<=|LIKE|ILIKE)\<close>.
  The matcher below follows the backtracking of \<^verbatim>\<open>re\<close> for this pattern: the
  identifier is tried from its longest extent down to one character, the white space
  from its longest extent down to none, the operators in the order of the alternation.
\<close>

definition ident_start :: "char \<Rightarrow> bool" where
  "ident_start c =
     (let n = of_char c :: nat in (65 \<le> n \<and> n \<le> 90) \<or> (97 \<le> n \<and> n \<le> 122) \<or> n = 95)"

definition word_char :: "char \<Rightarrow> bool" where
  "word_char c = (let n = of_char c :: nat in ident_start c \<or> (48 \<le> n \<and> n \<le> 57))"

text \<open>\<^verbatim>\<open>\b\<close> between the character before the position and the rest of the string.\<close>

definition word_boundary :: "char option \<Rightarrow> string \<Rightarrow> bool" where
  "word_boundary prev rest =
     ((case prev of None \<Rightarrow> False | Some c \<Rightarrow> word_char c)
      \<noteq> (case rest of [] \<Rightarrow> False | c # _ \<Rightarrow> word_char c))"

definition operators :: "string list" where
  "operators = [''='', ''>'', ''<'', ''>='', ''<='', ''LIKE'', ''ILIKE'']"

definition match_op :: "string \<Rightarrow> string option" where
  "match_op rest = find (startswith rest) operators"

fun first_some :: "('a \<Rightarrow> 'b option) \<Rightarrow> 'a list \<Rightarrow> 'b option" where
  "first_some f [] = None"
| "first_some f (x # xs) = (case f x of None \<Rightarrow> first_some f xs | Some y \<Rightarrow> Some y)"

text \<open>
  A match of the pattern at the start of \<open>s\<close>, \<open>prev\<close> being the character before:
  the identifier, the operator and the length of the match.
\<close>

definition match_at :: "char option \<Rightarrow> string \<Rightarrow> (string \<times> string \<times> nat) option" where
  "match_at prev s =
     (if \<not> word_boundary prev s then None
      else case s of
        [] \<Rightarrow> None
      | c # cs \<Rightarrow>
          if \<not> ident_start c then None
          else first_some
            (\<lambda>k. let r1 = drop k cs in
               first_some
                 (\<lambda>j. case match_op (drop j r1) of
                        None \<Rightarrow> None
                      | Some op \<Rightarrow> Some (c # take k cs, op, 1 + k + j + length op))
                 (rev [0..<Suc (length (takeWhile isspace r1))]))
            (rev [0..<Suc (length (takeWhile word_char cs))]))"

lemma first_some_SomeD:
  "first_some f xs = Some y \<Longrightarrow> \<exists>x \<in> set xs. f x = Some y"
  by (induction xs) (auto split: option.splits)

lemma match_at_pos: "match_at prev s = Some (i, op, n) \<Longrightarrow> 0 < n"
  unfolding match_at_def
  by (auto split: if_splits list.splits option.splits dest!: first_some_SomeD simp: Let_def)

text \<open>
  \<^verbatim>\<open>re.findall\<close>: the matches from left to right, without overlap; after a match
  the scan goes on where the match ended.
\<close>

function findall :: "char option \<Rightarrow> string \<Rightarrow> (string \<times> string) list" where
  "findall prev [] = []"
| "findall prev (c # cs) =
     (case match_at prev (c # cs) of
        None \<Rightarrow> findall (Some c) cs
      | Some (ident, op, n) \<Rightarrow>
          (ident, op) # findall (Some (last (take n (c # cs)))) (drop n (c # cs)))"
  by pat_completeness auto
termination
  by (relation "measure (\<lambda>(prev, s). length s)") (auto dest: match_at_pos)

text \<open>
  \<^verbatim>\<open>list({c[0] for c in cols})\<close>: the order in which Python lists a set of strings
  is not fixed by the language, so it is a parameter \<open>set_order\<close>, a function of the
  matched identifiers. \<open>set_order_ok\<close> says what every such order satisfies: each
  identifier once.
\<close>

definition set_order_ok :: "(string list \<Rightarrow> string list) \<Rightarrow> bool" where
  "set_order_ok set_order = (\<forall>xs. set (set_order xs) = set xs \<and> distinct (set_order xs))"

definition extract_columns_from_filter ::
  "(string list \<Rightarrow> string list) \<Rightarrow> string \<Rightarrow> string list" where
  "extract_columns_from_filter set_order filter_cond =
     (if filter_cond = [] then [] else set_order (map fst (findall None filter_cond)))"

subsection \<open>The catalog\<close>

text \<open>
  A row of \<^verbatim>\<open>pg_indexes\<close> is (indexname, indexdef); a row of the unused-index query
  is (schemaname, table_name, index_name, index_size, idx_scan). The connection
  answers a query with rows or raises. The catalog may change while the plan is
  walked, so an answer also depends on the number of \<^verbatim>\<open>pg_indexes\<close> queries made
  before it in this run.
\<close>

type_synonym index_row = "string \<times> string"

type_synonym unused_row = "string \<times> string \<times> string \<times> string \<times> int"

record conn =
  explain :: "string \<Rightarrow> py_error + plan"
  get_existing_indexes :: "nat \<Rightarrow> string \<Rightarrow> py_error + index_row list"
  get_unused_indexes :: "nat \<Rightarrow> py_error + unused_row list"

subsection \<open>Recommendations\<close>

datatype rec_type = AddIndex | DropIndex

datatype priority = High | Medium | Low

text \<open>
  A message is its template and the strings formatted into it:
  the relation, the filter, \<^verbatim>\<open>idx_name\<close> and \<^verbatim>\<open>', '.join(cols)\<close> of the filtered scan;
  the relation of the unfiltered scan; the join filter and the joined columns;
  the key, \<^verbatim>\<open>idx_name\<close> and the relation of the sort; the index, schema, table and
  \<^verbatim>\<open>size\<close> of an unused index.
\<close>

datatype message =
    SeqScanFilterMsg string string string string
  | SeqScanNoFilterMsg string
  | NestedLoopMsg string string
  | SortMsg string string string
  | UnusedIndexMsg string string string int

record recommendation =
  r_type :: rec_type
  r_priority :: priority
  r_message :: message

text \<open>
  The state of one run of \<^verbatim>\<open>recommend_indexes\<close>: the dictionary \<^verbatim>\<open>seen_tables\<close>,
  the list \<^verbatim>\<open>recommendations\<close>, and (not in the source) the log of the tables that
  \<^verbatim>\<open>get_existing_indexes\<close> was called for, in the order of the calls.
\<close>

record walk_state =
  seen_tables :: "string \<rightharpoonup> index_row list"
  recommendations :: "recommendation list"
  fetch_log :: "string list"

definition init_state :: walk_state where
  "init_state = \<lparr>seen_tables = Map.empty, recommendations = [], fetch_log = []\<rparr>"

text \<open>Lines 56 and 57.\<close>

definition fetch_indexes ::
  "(nat \<Rightarrow> string \<Rightarrow> py_error + index_row list) \<Rightarrow> string option \<Rightarrow> walk_state
   \<Rightarrow> py_error + walk_state" where
  "fetch_indexes db relation st =
     (case relation of
        None \<Rightarrow> Inr st
      | Some r \<Rightarrow>
          if r \<noteq> [] \<and> seen_tables st r = None
          then (case db (length (fetch_log st)) r of
                  Inl e \<Rightarrow> Inl e
                | Inr rows \<Rightarrow>
                    Inr (st\<lparr>seen_tables := (seen_tables st)(r \<mapsto> rows),
                            fetch_log := fetch_log st @ [r]\<rparr>))
          else Inr st)"

text \<open>\<^verbatim>\<open>any(all(col in idxdef for col in cols) for _, idxdef in existing)\<close>.\<close>

definition covered :: "string list \<Rightarrow> index_row list \<Rightarrow> bool" where
  "covered cols existing = list_ex (\<lambda>(_, idxdef). list_all (\<lambda>col. str_in col idxdef) cols) existing"

definition seq_scan_filter_rec :: "string \<Rightarrow> string \<Rightarrow> string list \<Rightarrow> recommendation" where
  "seq_scan_filter_rec relation filter_c cols =
     \<lparr>r_type = AddIndex, r_priority = High,
      r_message = SeqScanFilterMsg relation filter_c
        (''idx_'' @ relation @ ''_'' @ join ''_'' cols) (join '', '' cols)\<rparr>"

definition seq_scan_no_filter_rec :: "string \<Rightarrow> recommendation" where
  "seq_scan_no_filter_rec relation =
     \<lparr>r_type = AddIndex, r_priority = Medium, r_message = SeqScanNoFilterMsg relation\<rparr>"

text \<open>Lines 60 to 78; \<^verbatim>\<open>seen_tables[relation]\<close> raises \<^verbatim>\<open>KeyError\<close> on a missing key.\<close>

definition seq_scan_recs ::
  "(string list \<Rightarrow> string list) \<Rightarrow> string \<Rightarrow> string option \<Rightarrow> string option
   \<Rightarrow> (string \<rightharpoonup> index_row list) \<Rightarrow> py_error + recommendation list" where
  "seq_scan_recs set_order nt relation filter_c seen =
     (case relation of
        None \<Rightarrow> Inr []
      | Some r \<Rightarrow>
          if nt = ''Seq Scan'' \<and> r \<noteq> [] then
            (case filter_c of
               None \<Rightarrow> Inr [seq_scan_no_filter_rec r]
             | Some f \<Rightarrow>
                 if f \<noteq> [] then
                   (let cols = extract_columns_from_filter set_order f in
                    if cols \<noteq> [] then
                      (case seen r of
                         None \<Rightarrow> Inl KeyError
                       | Some existing \<Rightarrow>
                           if \<not> covered cols existing
                           then Inr [seq_scan_filter_rec r f cols] else Inr [])
                    else Inr [])
                 else Inr [seq_scan_no_filter_rec r])
          else Inr [])"

text \<open>Lines 81 to 88.\<close>

definition nested_loop_recs ::
  "(string list \<Rightarrow> string list) \<Rightarrow> string \<Rightarrow> string option \<Rightarrow> recommendation list" where
  "nested_loop_recs set_order nt join_cond =
     (case join_cond of
        None \<Rightarrow> []
      | Some j \<Rightarrow>
          if nt = ''Nested Loop'' \<and> j \<noteq> [] then
            (let cols = extract_columns_from_filter set_order j in
             if cols \<noteq> []
             then [\<lparr>r_type = AddIndex, r_priority = Medium,
                    r_message = NestedLoopMsg j (join '', '' cols)\<rparr>]
             else [])
          else [])"

text \<open>Lines 91 to 101.\<close>

definition sort_recs ::
  "string list option \<Rightarrow> string option \<Rightarrow> (string \<rightharpoonup> index_row list)
   \<Rightarrow> py_error + recommendation list" where
  "sort_recs sort_k relation seen =
     (case sort_k of
        None \<Rightarrow> Inr []
      | Some sk \<Rightarrow>
          (case relation of
             None \<Rightarrow> Inr []
           | Some r \<Rightarrow>
               if sk \<noteq> [] \<and> r \<noteq> [] then
                 (let key = join '', '' sk in
                  case seen r of
                    None \<Rightarrow> Inl KeyError
                  | Some existing \<Rightarrow>
                      if \<not> list_ex (\<lambda>(_, idxdef). str_in key idxdef) existing
                      then Inr [\<lparr>r_type = AddIndex, r_priority = Low,
                                r_message = SortMsg key (''idx_'' @ r @ ''_'' @ join ''_'' sk) r\<rparr>]
                      else Inr [])
               else Inr []))"

text \<open>The recommendations of one node, lines 59 to 101, in the order of the source.\<close>

definition node_recs ::
  "(string list \<Rightarrow> string list) \<Rightarrow> string \<Rightarrow> string option \<Rightarrow> string option \<Rightarrow> string option
   \<Rightarrow> string list option \<Rightarrow> (string \<rightharpoonup> index_row list) \<Rightarrow> py_error + recommendation list" where
  "node_recs set_order nt relation filter_c join_cond sort_k seen =
     (case seq_scan_recs set_order nt relation filter_c seen of
        Inl e \<Rightarrow> Inl e
      | Inr rs1 \<Rightarrow>
          (case sort_recs sort_k relation seen of
             Inl e \<Rightarrow> Inl e
           | Inr rs3 \<Rightarrow> Inr (rs1 @ nested_loop_recs set_order nt join_cond @ rs3)))"

text \<open>
  The body of \<^verbatim>\<open>walk(node)\<close> before its loop over the children, lines 50 to 101:
  the index fetch, then the recommendations of the node appended to the list.
\<close>

definition visit ::
  "(string list \<Rightarrow> string list) \<Rightarrow> (nat \<Rightarrow> string \<Rightarrow> py_error + index_row list) \<Rightarrow> plan
   \<Rightarrow> walk_state \<Rightarrow> py_error + walk_state" where
  "visit set_order db p st =
     (case fetch_indexes db (relation_name p) st of
        Inl e \<Rightarrow> Inl e
      | Inr st1 \<Rightarrow>
          (case node_recs set_order (get_default (node_type p) []) (relation_name p)
                  (plan_filter p) (plan_join_filter p) (plan_sort_key p) (seen_tables st1) of
             Inl e \<Rightarrow> Inl e
           | Inr rs \<Rightarrow> Inr (st1\<lparr>recommendations := recommendations st1 @ rs\<rparr>)))"

text \<open>
  \<^verbatim>\<open>walk(node)\<close>, lines 49 to 104: the node itself, then the children in order.
  An exception of the catalog ends the walk.
\<close>

fun walk ::
    "(string list \<Rightarrow> string list) \<Rightarrow> (nat \<Rightarrow> string \<Rightarrow> py_error + index_row list) \<Rightarrow> plan
     \<Rightarrow> walk_state \<Rightarrow> py_error + walk_state"
  and walk_children ::
    "(string list \<Rightarrow> string list) \<Rightarrow> (nat \<Rightarrow> string \<Rightarrow> py_error + index_row list) \<Rightarrow> plan list
     \<Rightarrow> walk_state \<Rightarrow> py_error + walk_state" where
  "walk set_order db (Plan nt tc pr pw sc rn fc jf sk ps) st =
     (case visit set_order db (Plan nt tc pr pw sc rn fc jf sk ps) st of
        Inl e \<Rightarrow> Inl e
      | Inr st1 \<Rightarrow> walk_children set_order db ps st1)"
| "walk_children set_order db [] st = Inr st"
| "walk_children set_order db (c # cs) st =
     (case walk set_order db c st of
        Inl e \<Rightarrow> Inl e
      | Inr st1 \<Rightarrow> walk_children set_order db cs st1)"

text \<open>Lines 110 to 116: \<^verbatim>\<open>for schema, table, idx, scans, size in unused\<close>.\<close>

definition drop_index_rec :: "unused_row \<Rightarrow> recommendation" where
  "drop_index_rec row =
     (case row of (schema, table, idx, scans, size_v) \<Rightarrow>
        \<lparr>r_type = DropIndex, r_priority = Low, r_message = UnusedIndexMsg idx schema table size_v\<rparr>)"

text \<open>\<^verbatim>\<open>recommend_indexes(conn, query)\<close>.\<close>

definition recommend_indexes ::
  "(string list \<Rightarrow> string list) \<Rightarrow> conn \<Rightarrow> string \<Rightarrow> py_error + recommendation list" where
  "recommend_indexes set_order c query =
     (case explain c query of
        Inl e \<Rightarrow> Inl e
      | Inr plan \<Rightarrow>
          (case walk set_order (get_existing_indexes c) plan init_state of
             Inl e \<Rightarrow> Inl e
           | Inr st \<Rightarrow>
               (case get_unused_indexes c (length (fetch_log st)) of
                  Inl e \<Rightarrow> Inl e
                | Inr unused \<Rightarrow> Inr (recommendations st @ map drop_index_rec unused))))"

section \<open>The statistics analyser\<close>

text \<open>A row of \<^verbatim>\<open>pg_stat_statements\<close> as the N+1 search reads it: query, calls, mean time, rows.\<close>

record stat_row =
  s_query :: string
  s_calls :: int
  s_mean_time :: rat
  s_rows :: int

text \<open>
  The recommendation text of a suspect shows the calls, the mean time and (in
  \<^verbatim>\<open>full_pg_analysis\<close>) the rows.
\<close>

datatype n1_message = FullAnalysisMsg int rat int | DetectMsg int rat

record suspect =
  query :: string
  calls :: int
  mean_exec_time_ms :: rat
  rows_per_call :: int
  recommendation :: n1_message

text \<open>The dictionary appended for a suspect row, in each of the two functions.\<close>

definition full_analysis_suspect :: "stat_row \<Rightarrow> suspect" where
  "full_analysis_suspect r =
     \<lparr>query = strip (s_query r), calls = s_calls r,
      mean_exec_time_ms = round2 (s_mean_time r), rows_per_call = s_rows r,
      recommendation = FullAnalysisMsg (s_calls r) (s_mean_time r) (s_rows r)\<rparr>"

definition detect_suspect :: "stat_row \<Rightarrow> suspect" where
  "detect_suspect r =
     \<lparr>query = strip (s_query r), calls = s_calls r,
      mean_exec_time_ms = round2 (s_mean_time r), rows_per_call = s_rows r,
      recommendation = DetectMsg (s_calls r) (s_mean_time r)\<rparr>"

text \<open>Lines 217 to 228 of info_about_query.py: the second loop of \<^verbatim>\<open>full_pg_analysis\<close>.\<close>

fun n_plus_one_suspects ::
  "int \<Rightarrow> rat \<Rightarrow> int \<Rightarrow> stat_row list \<Rightarrow> suspect list \<Rightarrow> suspect list" where
  "n_plus_one_suspects calls_threshold max_mean_time_ms max_rows [] acc = acc"
| "n_plus_one_suspects calls_threshold max_mean_time_ms max_rows (r # rs) acc =
     n_plus_one_suspects calls_threshold max_mean_time_ms max_rows rs
       (if s_calls r > calls_threshold \<and> s_mean_time r < max_mean_time_ms \<and> s_rows r \<le> max_rows
        then acc @ [full_analysis_suspect r]
        else acc)"

text \<open>Lines 135 to 149 of rec_query.py: the loop of \<^verbatim>\<open>detect_n_plus_one\<close>.\<close>

fun detect_loop ::
  "int \<Rightarrow> rat \<Rightarrow> int \<Rightarrow> stat_row list \<Rightarrow> suspect list \<Rightarrow> suspect list" where
  "detect_loop calls_threshold max_mean_time_ms max_rows [] suspects = suspects"
| "detect_loop calls_threshold max_mean_time_ms max_rows (r # rs) suspects =
     detect_loop calls_threshold max_mean_time_ms max_rows rs
       (if s_calls r > calls_threshold \<and> s_mean_time r < max_mean_time_ms \<and> s_rows r \<le> max_rows
        then suspects @ [detect_suspect r]
        else suspects)"

definition detect_n_plus_one :: "int \<Rightarrow> rat \<Rightarrow> int \<Rightarrow> stat_row list \<Rightarrow> suspect list" where
  "detect_n_plus_one calls_threshold max_mean_time_ms max_rows rows =
     detect_loop calls_threshold max_mean_time_ms max_rows rows []"

text \<open>The default thresholds of both functions: 1000 calls, 10 ms, 10 rows.\<close>

definition default_calls_threshold :: int where
  "default_calls_threshold = 1000"

definition default_max_mean_time_ms :: rat where
  "default_max_mean_time_ms = 10"

definition default_max_rows :: int where
  "default_max_rows = 10"

section \<open>Definitions used to state the properties of the index advisor\<close>

text \<open>
  The cache invariant of a run: every table in the log was fetched once, the tables of
  the log are the keys of \<^verbatim>\<open>seen_tables\<close>, and the entry of a table is what the
  catalog answered to its fetch, the \<open>i\<close>-th query of the run.
\<close>

definition cache_ok :: "(nat \<Rightarrow> string \<Rightarrow> py_error + index_row list) \<Rightarrow> walk_state \<Rightarrow> bool" where
  "cache_ok db st =
     (distinct (fetch_log st) \<and> set (fetch_log st) = dom (seen_tables st)
      \<and> (\<forall>i < length (fetch_log st). \<exists>rows.
            db i (fetch_log st ! i) = Inr rows \<and> seen_tables st (fetch_log st ! i) = Some rows))"

text \<open>
  A catalog that answers, at any time, with the index set stored for the table in a
  given dictionary: the view of the catalog that a finished run has cached.
\<close>

definition frozen :: "(string \<rightharpoonup> index_row list) \<Rightarrow> nat \<Rightarrow> string \<Rightarrow> py_error + index_row list" where
  "frozen seen k t = (case seen t of None \<Rightarrow> Inl KeyError | Some rows \<Rightarrow> Inr rows)"

text \<open>Example plans and connections.\<close>

definition scan_of :: "string \<Rightarrow> string option \<Rightarrow> plan" where
  "scan_of table filter_c =
     Plan (Some ''Seq Scan'') (Some 40) (Some 10) (Some 8) (Some 0) (Some table) filter_c None None []"

definition catalog_of :: "index_row list \<Rightarrow> nat \<Rightarrow> string \<Rightarrow> py_error + index_row list" where
  "catalog_of rows k t = Inr rows"

definition null_filter_conn :: conn where
  "null_filter_conn =
     \<lparr>explain = (\<lambda>q. Inr (scan_of ''t'' (Some ''(deleted_at IS NULL)''))),
      get_existing_indexes = catalog_of [],
      get_unused_indexes = (\<lambda>k. Inr [])\<rparr>"



text \<open>
  A catalog that changes during the run: it has no index at the first query and an
  index on column \<open>a\<close> from the second query on.
\<close>

definition changing_catalog :: "nat \<Rightarrow> string \<Rightarrow> py_error + index_row list" where
  "changing_catalog k t = (if k = 0 then Inr [] else Inr [(''i'', ''CREATE INDEX i ON t (a)'')])"

definition two_scans :: plan where
  "two_scans =
     Plan (Some ''Append'') (Some 80) (Some 20) (Some 8) (Some 0) None None None None
       [Plan (Some ''Seq Scan'') (Some 40) (Some 10) (Some 8) (Some 0) (Some ''t'')
          (Some ''(a > 1)'') None None [],
        Plan (Some ''Seq Scan'') (Some 40) (Some 10) (Some 8) (Some 0) (Some ''t'')
          (Some ''(a < 9)'') None None []]"

section \<open>Properties of the plan metrics extractor\<close>




lemma py_int_close: "0 \<le> x \<Longrightarrow> of_int (py_int x) \<le> x \<and> x - 1 < of_int (py_int x)"
  unfolding py_int_def by (simp; linarith)

lemma extract_shape:
  "(extract_metrics spc ctc p = Inr a \<longrightarrow> annotated_shape a = plan_shape p)"
  "(extract_children ps = Inr as \<longrightarrow> map annotated_shape as = map plan_shape ps)"
  by (induction spc ctc p and ps arbitrary: a and as rule: extract_metrics_extract_children.induct)
     (auto split: option.splits sum.splits simp: annotate_def)

lemma extract_total:
  "(typed p \<longrightarrow> (\<exists>a. extract_metrics spc ctc p = Inr a))"
  "(list_all typed ps \<longrightarrow> (\<exists>as. extract_children ps = Inr as))"
  by (induction spc ctc p and ps rule: extract_metrics_extract_children.induct)
     (auto split: option.splits sum.splits simp: annotate_def)

lemma extract_typed:
  "(extract_metrics spc ctc p = Inr a \<longrightarrow> typed p)"
  "(extract_children ps = Inr as \<longrightarrow> list_all typed ps)"
  by (induction spc ctc p and ps arbitrary: a and as rule: extract_metrics_extract_children.induct)
     (auto split: option.splits sum.splits simp: annotate_def)





lemma endswith_seq_scan_not:
  assumes "endswith nt ''Seq Scan''"
  shows "nt \<noteq> ''Hash''" and "nt \<noteq> ''Sort''" and "nt \<noteq> ''Nested Loop''"
  using assms by (auto simp: endswith_def)

text \<open>
  C1. The claim: \<^verbatim>\<open>extract_metrics\<close> returns an annotated node for every plan node,
  also for one without the node-type tag. The code: on a node without "Node Type"
  (here with cost 10, 5 rows of width 4 and no children) the call raises
  \<^verbatim>\<open>AttributeError\<close> and returns nothing.
\<close>

theorem extract_metrics_missing_node_type:
  "extract_metrics default_seq_page_cost default_cpu_tuple_cost
     (Plan None (Some 10) (Some 5) (Some 4) (Some 0) None None None None []) = Inl AttributeError"
  by simp

text \<open>
  What holds of the shape: whenever \<^verbatim>\<open>extract_metrics\<close> returns, its result has the
  shape of the input (node for node the same node type and copied fields, the children
  in the same order), and it does return for the trees in which every node carries a
  node type.
\<close>

lemma extract_metrics_shape_of_typed:
  "(extract_metrics seq_page_cost cpu_tuple_cost p = Inr a \<longrightarrow> annotated_shape a = plan_shape p)
   \<and> (typed p \<longrightarrow> (\<exists>a. extract_metrics seq_page_cost cpu_tuple_cost p = Inr a
                         \<and> annotated_shape a = plan_shape p))"
  using extract_shape(1)[of seq_page_cost cpu_tuple_cost p]
    extract_total(1)[of p seq_page_cost cpu_tuple_cost]
  by blast

text \<open>
  C2. The claim: for every plan tree \<^verbatim>\<open>extract_metrics\<close> returns an annotated tree of
  the same shape. The code: on a tree of four nodes, a sort over a hash join over a
  scan and a node without "Node Type", the call on the root raises \<^verbatim>\<open>AttributeError\<close>
  when the list comprehension reaches that node; no tree is returned, of any shape.
\<close>

theorem extract_metrics_untyped_descendant:
  "extract_metrics default_seq_page_cost default_cpu_tuple_cost
     (Plan (Some ''Sort'') (Some 120) (Some 50) (Some 8) (Some 100) None None None (Some [''a''])
        [Plan (Some ''Hash Join'') (Some 90) (Some 50) (Some 8) (Some 0) None None None None
           [Plan (Some ''Seq Scan'') (Some 40) (Some 50) (Some 8) (Some 0) (Some ''t'')
              None None None [],
            Plan None (Some 7) (Some 3) (Some 4) (Some 0) None None None None []]])
   = Inl AttributeError"
  by simp



text \<open>
  C7. A node whose type ends in "Seq Scan", with 150000 rows, that triggers no other
  heuristic (no "Parallel" in the type, not a costly sequential or bitmap heap scan; the
  hash, sort and nested-loop heuristics cannot apply to such a type) gets exactly one
  recommendation, the full-scan warning.
\<close>

theorem full_scan_warning_only:
  assumes "endswith nt ''Seq Scan''"
    and "\<not> str_in ''Parallel'' nt"
    and "\<not> (get_default tc 0 > 100000 \<and> nt \<in> set [''Seq Scan'', ''Bitmap Heap Scan''])"
    and "extract_children ps = Inr children"
  shows "\<exists>a. extract_metrics seq_page_cost cpu_tuple_cost
            (Plan (Some nt) tc (Some 150000) pw sc rn fc jf sk ps) = Inr a
          \<and> a_recommendations a = [FullScanAdvice 150000]"
  using assms endswith_seq_scan_not[OF assms(1)]
  by (simp add: annotate_def node_advice_def get_default_def)

theorem full_scan_warning_only_witness:
  "endswith ''Seq Scan'' ''Seq Scan'' \<and> \<not> str_in ''Parallel'' ''Seq Scan''
   \<and> \<not> (get_default (Some 2500) 0 > (100000 :: rat)
        \<and> ''Seq Scan'' \<in> set [''Seq Scan'', ''Bitmap Heap Scan''])
   \<and> extract_children [] = Inr []
   \<and> (\<exists>a. extract_metrics default_seq_page_cost default_cpu_tuple_cost
            (Plan (Some ''Seq Scan'') (Some 2500) (Some 150000) (Some 40) (Some 0) (Some ''orders'')
               None None None []) = Inr a
          \<and> a_recommendations a = [FullScanAdvice 150000])"
proof -
  have h1: "endswith ''Seq Scan'' ''Seq Scan''" by (simp add: endswith_def)
  have h2: "\<not> str_in ''Parallel'' ''Seq Scan''" by simp
  have h3: "\<not> (get_default (Some 2500) 0 > (100000 :: rat)
              \<and> ''Seq Scan'' \<in> set [''Seq Scan'', ''Bitmap Heap Scan''])"
    by (simp add: get_default_def)
  have h4: "extract_children [] = Inr []" by simp
  from full_scan_warning_only[OF h1 h2 h3 h4] h1 h2 h3 h4 show ?thesis by blast
qed

text \<open>
  C8. A node of type "Hash" or "Sort" whose \<open>memory_bytes\<close> exceeds 10 MiB gets the
  working-memory recommendation; it shows the estimate \<open>mb\<close> in MB and suggests
  \<open>int(mb * 2)\<close> MB, which lies within one MB below twice the estimate. The witness
  is the hash node with 2000000 rows of width 10: about 19 MB, 38 MB suggested.
\<close>

theorem work_mem_advice:
  assumes "nt = ''Hash'' \<or> nt = ''Sort''"
    and "memory_bytes (get_default pr 0) (get_default pw 0) > 10 * 1024 * 1024"
    and "extract_children ps = Inr children"
    and "mb = of_int (memory_bytes (get_default pr 0) (get_default pw 0)) / (1024 * 1024)"
  shows "\<exists>a. extract_metrics seq_page_cost cpu_tuple_cost (Plan (Some nt) tc pr pw sc rn fc jf sk ps) = Inr a
          \<and> WorkMemAdvice nt mb (py_int (mb * 2)) \<in> set (a_recommendations a)
          \<and> of_int (py_int (mb * 2)) \<le> 2 * mb \<and> 2 * mb - 1 < of_int (py_int (mb * 2))"
proof -
  let ?m = "memory_bytes (get_default pr 0) (get_default pw 0)"
  have pos: "0 \<le> mb * 2" using assms(2,4) by simp
  have adv: "WorkMemAdvice nt mb (py_int (mb * 2))
      \<in> set (node_advice nt (get_default tc 0) (get_default pr 0) ?m)"
    using assms(1,2) unfolding node_advice_def Let_def assms(4) by auto
  have ex: "extract_metrics seq_page_cost cpu_tuple_cost (Plan (Some nt) tc pr pw sc rn fc jf sk ps)
    = Inr (annotate cpu_tuple_cost nt (get_default tc 0) (get_default pr 0) (get_default pw 0)
             (get_default sc 0) children)"
    using assms(3) by simp
  have recs: "a_recommendations (annotate cpu_tuple_cost nt (get_default tc 0) (get_default pr 0)
      (get_default pw 0) (get_default sc 0) children)
      = node_advice nt (get_default tc 0) (get_default pr 0) ?m"
    by (simp add: annotate_def)
  from py_int_close[OF pos]
  have "of_int (py_int (mb * 2)) \<le> 2 * mb \<and> 2 * mb - 1 < of_int (py_int (mb * 2))"
    by (simp add: mult.commute)
  with adv ex recs show ?thesis by simp
qed

theorem work_mem_advice_witness:
  "memory_bytes (get_default (Some 2000000) 0) (get_default (Some 10) 0) > 10 * 1024 * 1024
   \<and> extract_children [] = Inr []
   \<and> memory_bytes (get_default (Some 2000000) 0) (get_default (Some 10) 0) = 20000000
   \<and> (\<exists>a. extract_metrics default_seq_page_cost default_cpu_tuple_cost
            (Plan (Some ''Hash'') (Some 30000) (Some 2000000) (Some 10) (Some 0) None None None None [])
          = Inr a
        \<and> WorkMemAdvice ''Hash'' (20000000 / 1048576) 38 \<in> set (a_recommendations a))
   \<and> (19 :: rat) < 20000000 / 1048576 \<and> (20000000 :: rat) / 1048576 < 191 / 10"
proof -
  have h1: "''Hash'' = ''Hash'' \<or> ''Hash'' = ''Sort''" by simp
  have m: "memory_bytes (get_default (Some 2000000) 0) (get_default (Some 10) 0) = 20000000"
    by (simp add: memory_bytes_def get_default_def)
  have h2: "memory_bytes (get_default (Some 2000000) 0) (get_default (Some 10) 0) > 10 * 1024 * 1024"
    by (simp add: m)
  have h3: "extract_children [] = Inr []" by simp
  have h4: "(20000000 / 1048576 :: rat) =
     of_int (memory_bytes (get_default (Some 2000000) 0) (get_default (Some 10) 0)) / (1024 * 1024)"
    by (simp add: m)
  have i: "py_int (78125 / 2048) = 38" by code_simp
  from work_mem_advice[OF h1 h2 h3 h4, of default_seq_page_cost default_cpu_tuple_cost
      "Some 30000" "Some 0" None None None None]
  show ?thesis using h2 h3 m i by auto
qed

section \<open>Properties of the index advisor\<close>

lemma startswith_iff: "startswith s p \<longleftrightarrow> (\<exists>b. s = p @ b)"
  by (induction s p rule: startswith.induct) auto

lemma str_in_iff: "str_in p s \<longleftrightarrow> (\<exists>a b. s = a @ p @ b)"
proof (induction s)
  case Nil
  then show ?case by auto
next
  case (Cons c cs)
  show ?case
  proof
    assume "str_in p (c # cs)"
    then consider "startswith (c # cs) p" | "str_in p cs" by auto
    then show "\<exists>a b. c # cs = a @ p @ b"
    proof cases
      case 1
      then obtain b where "c # cs = p @ b" by (auto simp: startswith_iff)
      then have "c # cs = [] @ p @ b" by simp
      then show ?thesis by blast
    next
      case 2
      then obtain a b where "cs = a @ p @ b" using Cons.IH by blast
      then have "c # cs = (c # a) @ p @ b" by simp
      then show ?thesis by blast
    qed
  next
    assume "\<exists>a b. c # cs = a @ p @ b"
    then obtain a b where ab: "c # cs = a @ p @ b" by blast
    show "str_in p (c # cs)"
    proof (cases a)
      case Nil
      then have "startswith (c # cs) p" using ab by (auto simp: startswith_iff)
      then show ?thesis by simp
    next
      case (Cons x xs)
      then have "cs = xs @ p @ b" using ab by simp
      then have "str_in p cs" using Cons.IH by blast
      then show ?thesis by simp
    qed
  qed
qed

text \<open>
  The columns of a filter are the identifiers matched in it, each once, in whatever
  order the set is listed; the first-occurrence order \<open>remdups\<close> is one such order.
\<close>

lemma set_order_ok_remdups: "set_order_ok remdups"
  by (simp add: set_order_ok_def)

lemma extract_columns_set:
  assumes "set_order_ok set_order" and "f \<noteq> []"
  shows "set (extract_columns_from_filter set_order f) = fst ` set (findall None f)"
    and "distinct (extract_columns_from_filter set_order f)"
  using assms by (simp_all add: set_order_ok_def extract_columns_from_filter_def)

lemma covered_iff:
  "covered cols existing \<longleftrightarrow> (\<exists>(n, d) \<in> set existing. \<forall>c \<in> set cols. \<exists>u v. d = u @ c @ v)"
  by (auto simp: covered_def list_ex_iff list_all_iff str_in_iff)

lemma fetch_indexes_cases:
  assumes "fetch_indexes db rn st = Inr st1"
  shows "st1 = st \<or> (\<exists>r rows. rn = Some r \<and> r \<noteq> [] \<and> seen_tables st r = None
           \<and> db (length (fetch_log st)) r = Inr rows
           \<and> st1 = st\<lparr>seen_tables := (seen_tables st)(r \<mapsto> rows), fetch_log := fetch_log st @ [r]\<rparr>)"
  using assms by (auto simp: fetch_indexes_def split: option.splits if_splits sum.splits)

lemma fetch_indexes_seen:
  assumes "fetch_indexes db (Some r) st = Inr st1" and "r \<noteq> []"
  shows "seen_tables st1 r \<noteq> None"
  using assms by (auto simp: fetch_indexes_def split: option.splits if_splits sum.splits)

lemma fetch_indexes_recs:
  assumes "fetch_indexes db rn st = Inr st1"
  shows "recommendations st1 = recommendations st"
  using fetch_indexes_cases[OF assms] by auto

lemma fetch_indexes_mono:
  assumes "fetch_indexes db rn st = Inr st1"
  shows "seen_tables st \<subseteq>\<^sub>m seen_tables st1"
  using fetch_indexes_cases[OF assms] by (auto simp: map_le_def)

lemma fetch_indexes_cache_ok:
  assumes "fetch_indexes db rn st = Inr st1" and "cache_ok db st"
  shows "cache_ok db st1"
proof -
  from fetch_indexes_cases[OF assms(1)] show ?thesis
  proof
    assume "st1 = st" then show ?thesis using assms(2) by simp
  next
    assume "\<exists>r rows. rn = Some r \<and> r \<noteq> [] \<and> seen_tables st r = None
           \<and> db (length (fetch_log st)) r = Inr rows
           \<and> st1 = st\<lparr>seen_tables := (seen_tables st)(r \<mapsto> rows), fetch_log := fetch_log st @ [r]\<rparr>"
    then obtain r rows where r: "seen_tables st r = None" "db (length (fetch_log st)) r = Inr rows"
      and st1: "st1 = st\<lparr>seen_tables := (seen_tables st)(r \<mapsto> rows), fetch_log := fetch_log st @ [r]\<rparr>"
      by blast
    from assms(2) have d: "distinct (fetch_log st)" and s: "set (fetch_log st) = dom (seen_tables st)"
      and a: "\<forall>i < length (fetch_log st). \<exists>rows.
            db i (fetch_log st ! i) = Inr rows \<and> seen_tables st (fetch_log st ! i) = Some rows"
      by (auto simp: cache_ok_def)
    have rn: "r \<notin> set (fetch_log st)" using r(1) s by auto
    have "\<exists>rows'. db i (fetch_log st1 ! i) = Inr rows' \<and> seen_tables st1 (fetch_log st1 ! i) = Some rows'"
      if "i < length (fetch_log st1)" for i
    proof (cases "i < length (fetch_log st)")
      case True
      then have "fetch_log st ! i \<in> set (fetch_log st)" by simp
      then have "fetch_log st ! i \<noteq> r" using rn by auto
      then show ?thesis using True a st1 by (auto simp: nth_append)
    next
      case False
      then have "i = length (fetch_log st)" using that st1 by simp
      then show ?thesis using r(2) st1 by simp
    qed
    then show ?thesis using d s rn st1 by (auto simp: cache_ok_def)
  qed
qed

lemma visit_cases:
  assumes "visit set_order db p st = Inr st2"
  shows "\<exists>st1 rs. fetch_indexes db (relation_name p) st = Inr st1
           \<and> node_recs set_order (get_default (node_type p) []) (relation_name p)
                  (plan_filter p) (plan_join_filter p) (plan_sort_key p) (seen_tables st1) = Inr rs
           \<and> st2 = st1\<lparr>recommendations := recommendations st1 @ rs\<rparr>"
  using assms by (auto simp: visit_def split: sum.splits)

lemma visit_mono:
  assumes "visit set_order db p st = Inr st2"
  shows "seen_tables st \<subseteq>\<^sub>m seen_tables st2"
  using visit_cases[OF assms] fetch_indexes_mono by fastforce

lemma visit_cache_ok:
  assumes "visit set_order db p st = Inr st2" and "cache_ok db st"
  shows "cache_ok db st2"
proof -
  from visit_cases[OF assms(1)] obtain st1 rs where
    f: "fetch_indexes db (relation_name p) st = Inr st1"
    and s: "st2 = st1\<lparr>recommendations := recommendations st1 @ rs\<rparr>" by blast
  from fetch_indexes_cache_ok[OF f assms(2)] show ?thesis using s by (simp add: cache_ok_def)
qed

lemma walk_mono:
  "(walk set_order db p st = Inr st' \<longrightarrow> seen_tables st \<subseteq>\<^sub>m seen_tables st')"
  "(walk_children set_order db ps st = Inr st' \<longrightarrow> seen_tables st \<subseteq>\<^sub>m seen_tables st')"
proof (induction set_order db p st and set_order db ps st arbitrary: st' and st'
       rule: walk_walk_children.induct)
  case (1 set_order db nt tc pr pw sc rn fc jf sk ps st)
  show ?case
  proof
    assume "walk set_order db (Plan nt tc pr pw sc rn fc jf sk ps) st = Inr st'"
    then obtain st1 where v: "visit set_order db (Plan nt tc pr pw sc rn fc jf sk ps) st = Inr st1"
      and c: "walk_children set_order db ps st1 = Inr st'"
      by (auto split: sum.splits)
    from "1.IH"[OF v] c have "seen_tables st1 \<subseteq>\<^sub>m seen_tables st'" by blast
    with visit_mono[OF v] show "seen_tables st \<subseteq>\<^sub>m seen_tables st'"
      by (rule map_le_trans)
  qed
next
  case (2 set_order db st)
  then show ?case by simp
next
  case (3 set_order db c cs st)
  then show ?case by (auto split: sum.splits intro: map_le_trans)
qed

lemma walk_cache_ok:
  "(walk set_order db p st = Inr st' \<longrightarrow> cache_ok db st \<longrightarrow> cache_ok db st')"
  "(walk_children set_order db ps st = Inr st' \<longrightarrow> cache_ok db st \<longrightarrow> cache_ok db st')"
proof (induction set_order db p st and set_order db ps st arbitrary: st' and st'
       rule: walk_walk_children.induct)
  case (1 set_order db nt tc pr pw sc rn fc jf sk ps st)
  then show ?case
    by (auto split: sum.splits dest: visit_cache_ok)
next
  case (2 set_order db st)
  then show ?case by simp
next
  case (3 set_order db c cs st)
  then show ?case by (auto split: sum.splits)
qed

lemma fetch_indexes_frozen:
  assumes "fetch_indexes db rn st = Inr st1" and "seen_tables st1 \<subseteq>\<^sub>m m"
  shows "fetch_indexes (frozen m) rn st = Inr st1"
proof (cases rn)
  case None
  then show ?thesis using assms(1) by (simp add: fetch_indexes_def)
next
  case (Some r)
  show ?thesis
  proof (cases "r \<noteq> [] \<and> seen_tables st r = None")
    case True
    with Some assms(1) obtain rows where
      st1: "st1 = st\<lparr>seen_tables := (seen_tables st)(r \<mapsto> rows), fetch_log := fetch_log st @ [r]\<rparr>"
      by (auto simp: fetch_indexes_def split: sum.splits)
    have "seen_tables st1 r = Some rows" using st1 by simp
    then have "m r = Some rows" using assms(2) by (auto simp: map_le_def dom_def)
    then show ?thesis using Some True st1 by (simp add: fetch_indexes_def frozen_def)
  next
    case False
    with Some assms(1) show ?thesis by (auto simp: fetch_indexes_def)
  qed
qed

lemma visit_frozen:
  assumes "visit set_order db p st = Inr st2" and "seen_tables st2 \<subseteq>\<^sub>m m"
  shows "visit set_order (frozen m) p st = Inr st2"
proof -
  from visit_cases[OF assms(1)] obtain st1 rs where
    f: "fetch_indexes db (relation_name p) st = Inr st1"
    and n: "node_recs set_order (get_default (node_type p) []) (relation_name p)
                  (plan_filter p) (plan_join_filter p) (plan_sort_key p) (seen_tables st1) = Inr rs"
    and s: "st2 = st1\<lparr>recommendations := recommendations st1 @ rs\<rparr>" by blast
  have "seen_tables st1 \<subseteq>\<^sub>m m" using assms(2) s by simp
  from fetch_indexes_frozen[OF f this] n s show ?thesis by (simp add: visit_def)
qed

lemma walk_frozen:
  "(walk set_order db p st = Inr st' \<longrightarrow> seen_tables st' \<subseteq>\<^sub>m m \<longrightarrow>
      walk set_order (frozen m) p st = Inr st')"
  "(walk_children set_order db ps st = Inr st' \<longrightarrow> seen_tables st' \<subseteq>\<^sub>m m \<longrightarrow>
      walk_children set_order (frozen m) ps st = Inr st')"
proof (induction set_order db p st and set_order db ps st arbitrary: st' and st'
       rule: walk_walk_children.induct)
  case (1 set_order db nt tc pr pw sc rn fc jf sk ps st)
  show ?case
  proof (intro impI)
    assume "walk set_order db (Plan nt tc pr pw sc rn fc jf sk ps) st = Inr st'"
      and le: "seen_tables st' \<subseteq>\<^sub>m m"
    then obtain st1 where v: "visit set_order db (Plan nt tc pr pw sc rn fc jf sk ps) st = Inr st1"
      and c: "walk_children set_order db ps st1 = Inr st'"
      by (auto split: sum.splits)
    from "1.IH"[OF v] c le have c': "walk_children set_order (frozen m) ps st1 = Inr st'" by blast
    from walk_mono(2)[of set_order db ps st1 st'] c have "seen_tables st1 \<subseteq>\<^sub>m seen_tables st'" by blast
    then have "seen_tables st1 \<subseteq>\<^sub>m m" using le by (rule map_le_trans)
    from visit_frozen[OF v this] c'
    show "walk set_order (frozen m) (Plan nt tc pr pw sc rn fc jf sk ps) st = Inr st'" by simp
  qed
next
  case (2 set_order db st)
  then show ?case by simp
next
  case (3 set_order db c cs st)
  show ?case
  proof (intro impI)
    assume "walk_children set_order db (c # cs) st = Inr st'" and le: "seen_tables st' \<subseteq>\<^sub>m m"
    then obtain st1 where w: "walk set_order db c st = Inr st1"
      and r: "walk_children set_order db cs st1 = Inr st'"
      by (auto split: sum.splits)
    from "3.IH"(2)[OF w] r le have r': "walk_children set_order (frozen m) cs st1 = Inr st'" by blast
    from walk_mono(2)[of set_order db cs st1 st'] r have "seen_tables st1 \<subseteq>\<^sub>m seen_tables st'" by blast
    then have "seen_tables st1 \<subseteq>\<^sub>m m" using le by (rule map_le_trans)
    with "3.IH"(1) w have "walk set_order (frozen m) c st = Inr st1" by blast
    with r' show "walk_children set_order (frozen m) (c # cs) st = Inr st'" by simp
  qed
qed

lemma cache_ok_init: "cache_ok db init_state"
  by (simp add: cache_ok_def init_state_def)

text \<open>
  C5. In one run of the index advisor, started from the empty dictionary, the index set
  of a table is fetched at most once (the log of fetches has no repetition and holds
  exactly the cached tables), the cached set of a table is the answer to that one fetch,
  and every node saw the cached sets: walking the same plan against the frozen cache,
  in place of the catalog that may change between queries, gives the same run.
\<close>

theorem fetch_once:
  assumes "walk set_order db p init_state = Inr st'"
  shows "distinct (fetch_log st')
     \<and> set (fetch_log st') = dom (seen_tables st')
     \<and> (\<forall>i < length (fetch_log st'). \<exists>rows.
           db i (fetch_log st' ! i) = Inr rows \<and> seen_tables st' (fetch_log st' ! i) = Some rows)
     \<and> walk set_order (frozen (seen_tables st')) p init_state = Inr st'"
proof -
  have "cache_ok db st'"
    using walk_cache_ok(1)[of set_order db p init_state st'] assms cache_ok_init by blast
  moreover have "walk set_order (frozen (seen_tables st')) p init_state = Inr st'"
    using walk_frozen(1)[of set_order db p init_state st' "seen_tables st'"] assms by simp
  ultimately show ?thesis by (simp add: cache_ok_def)
qed

lemma cols_a_gt: "extract_columns_from_filter remdups ''(a > 1)'' = [''a'']"
  by code_simp

lemma cols_a_lt: "extract_columns_from_filter remdups ''(a < 9)'' = [''a'']"
  by code_simp

lemma two_scans_walk:
  "walk remdups changing_catalog two_scans init_state =
     Inr \<lparr>seen_tables = [''t'' \<mapsto> []],
          recommendations = [seq_scan_filter_rec ''t'' ''(a > 1)'' [''a''],
                             seq_scan_filter_rec ''t'' ''(a < 9)'' [''a'']],
          fetch_log = [''t'']\<rparr>"
  by (simp add: two_scans_def init_state_def visit_def fetch_indexes_def node_recs_def
      seq_scan_recs_def nested_loop_recs_def sort_recs_def get_default_def changing_catalog_def
      cols_a_gt cols_a_lt covered_def)

theorem fetch_once_witness:
  "walk remdups changing_catalog two_scans init_state =
     Inr \<lparr>seen_tables = [''t'' \<mapsto> []],
          recommendations = [seq_scan_filter_rec ''t'' ''(a > 1)'' [''a''],
                             seq_scan_filter_rec ''t'' ''(a < 9)'' [''a'']],
          fetch_log = [''t'']\<rparr>
   \<and> changing_catalog 0 ''t'' = Inr []
   \<and> changing_catalog 1 ''t'' = Inr [(''i'', ''CREATE INDEX i ON t (a)'')]
   \<and> walk remdups (frozen [''t'' \<mapsto> []]) two_scans init_state =
     Inr \<lparr>seen_tables = [''t'' \<mapsto> []],
          recommendations = [seq_scan_filter_rec ''t'' ''(a > 1)'' [''a''],
                             seq_scan_filter_rec ''t'' ''(a < 9)'' [''a'']],
          fetch_log = [''t'']\<rparr>"
  using fetch_once[OF two_scans_walk] two_scans_walk
  by (simp add: changing_catalog_def)

lemma sort_recs_ok:
  assumes "seen r = Some existing"
  shows "\<exists>srt. sort_recs sk (Some r) seen = Inr srt"
  using assms by (auto simp: sort_recs_def Let_def split: option.splits)

lemma nested_loop_recs_seq_scan: "nested_loop_recs set_order ''Seq Scan'' jf = []"
  by (simp add: nested_loop_recs_def split: option.splits)

lemma fetch_indexes_known:
  assumes "r \<noteq> []"
    and "seen_tables st r = Some existing
         \<or> (seen_tables st r = None \<and> db (length (fetch_log st)) r = Inr existing)"
  shows "\<exists>st1. fetch_indexes db (Some r) st = Inr st1 \<and> seen_tables st1 r = Some existing
           \<and> recommendations st1 = recommendations st"
  using assms by (auto simp: fetch_indexes_def)

text \<open>
  C3, as amended. For a "Seq Scan" node with a non-empty relation name whose index set
  (cached, or fetched at this node) is \<open>existing\<close>: with a non-empty filter, the node
  appends the high-priority add-index recommendation naming the relation and the
  extracted columns if and only if at least one column was extracted and no index
  definition in \<open>existing\<close> contains every extracted column as a substring; with no
  filter (missing or empty) it appends the medium-priority partitioning suggestion.
  The only other recommendations of the node are those of its sort key.
\<close>

theorem seq_scan_recommendation:
  assumes "r \<noteq> []"
    and "seen_tables st r = Some existing
         \<or> (seen_tables st r = None \<and> db (length (fetch_log st)) r = Inr existing)"
  shows "(covered cols existing \<longleftrightarrow> (\<exists>(n, d) \<in> set existing. \<forall>c \<in> set cols. \<exists>u v. d = u @ c @ v))
    \<and> (f \<noteq> [] \<and> cols = extract_columns_from_filter set_order f \<longrightarrow>
         (\<exists>st1 srt. visit set_order db (Plan (Some ''Seq Scan'') tc pr pw sc (Some r) (Some f) jf sk ps) st = Inr st1
            \<and> seen_tables st1 r = Some existing
            \<and> sort_recs sk (Some r) (seen_tables st1) = Inr srt
            \<and> recommendations st1 = recommendations st
                @ (if cols \<noteq> [] \<and> \<not> covered cols existing
                   then [\<lparr>r_type = AddIndex, r_priority = High,
                          r_message = SeqScanFilterMsg r f (''idx_'' @ r @ ''_'' @ join ''_'' cols)
                                        (join '', '' cols)\<rparr>]
                   else [])
                @ srt))
    \<and> (fc = None \<or> fc = Some [] \<longrightarrow>
         (\<exists>st1 srt. visit set_order db (Plan (Some ''Seq Scan'') tc pr pw sc (Some r) fc jf sk ps) st = Inr st1
            \<and> seen_tables st1 r = Some existing
            \<and> sort_recs sk (Some r) (seen_tables st1) = Inr srt
            \<and> recommendations st1 = recommendations st
                @ [\<lparr>r_type = AddIndex, r_priority = Medium, r_message = SeqScanNoFilterMsg r\<rparr>]
                @ srt))"
proof -
  from fetch_indexes_known[of r st existing db] assms obtain st1 where
    f1: "fetch_indexes db (Some r) st = Inr st1" and s1: "seen_tables st1 r = Some existing"
    and r1: "recommendations st1 = recommendations st" by blast
  from sort_recs_ok[of "seen_tables st1" r existing sk] s1 obtain srt where srt: "sort_recs sk (Some r) (seen_tables st1) = Inr srt"
    by blast
  have A: "f \<noteq> [] \<and> cols = extract_columns_from_filter set_order f \<longrightarrow>
         (\<exists>st1 srt. visit set_order db (Plan (Some ''Seq Scan'') tc pr pw sc (Some r) (Some f) jf sk ps) st = Inr st1
            \<and> seen_tables st1 r = Some existing
            \<and> sort_recs sk (Some r) (seen_tables st1) = Inr srt
            \<and> recommendations st1 = recommendations st
                @ (if cols \<noteq> [] \<and> \<not> covered cols existing
                   then [\<lparr>r_type = AddIndex, r_priority = High,
                          r_message = SeqScanFilterMsg r f (''idx_'' @ r @ ''_'' @ join ''_'' cols)
                                        (join '', '' cols)\<rparr>]
                   else [])
                @ srt)"
  proof
    assume h: "f \<noteq> [] \<and> cols = extract_columns_from_filter set_order f"
    have sq: "seq_scan_recs set_order ''Seq Scan'' (Some r) (Some f) (seen_tables st1) =
        Inr (if cols \<noteq> [] \<and> \<not> covered cols existing then [seq_scan_filter_rec r f cols] else [])"
      using h assms(1) s1 by (simp add: seq_scan_recs_def Let_def)
    let ?st2 = "st1\<lparr>recommendations := recommendations st1
        @ (if cols \<noteq> [] \<and> \<not> covered cols existing then [seq_scan_filter_rec r f cols] else []) @ srt\<rparr>"
    have "visit set_order db (Plan (Some ''Seq Scan'') tc pr pw sc (Some r) (Some f) jf sk ps) st = Inr ?st2"
      using f1 sq srt
      by (simp add: visit_def node_recs_def get_default_def nested_loop_recs_seq_scan)
    moreover have "seen_tables ?st2 r = Some existing" using s1 by simp
    moreover have "sort_recs sk (Some r) (seen_tables ?st2) = Inr srt" using srt by simp
    moreover have "recommendations ?st2 = recommendations st
                @ (if cols \<noteq> [] \<and> \<not> covered cols existing
                   then [\<lparr>r_type = AddIndex, r_priority = High,
                          r_message = SeqScanFilterMsg r f (''idx_'' @ r @ ''_'' @ join ''_'' cols)
                                        (join '', '' cols)\<rparr>]
                   else [])
                @ srt"
      using r1 by (simp add: seq_scan_filter_rec_def)
    ultimately show "\<exists>st1 srt. visit set_order db (Plan (Some ''Seq Scan'') tc pr pw sc (Some r) (Some f) jf sk ps) st = Inr st1
            \<and> seen_tables st1 r = Some existing
            \<and> sort_recs sk (Some r) (seen_tables st1) = Inr srt
            \<and> recommendations st1 = recommendations st
                @ (if cols \<noteq> [] \<and> \<not> covered cols existing
                   then [\<lparr>r_type = AddIndex, r_priority = High,
                          r_message = SeqScanFilterMsg r f (''idx_'' @ r @ ''_'' @ join ''_'' cols)
                                        (join '', '' cols)\<rparr>]
                   else [])
                @ srt"
      by blast
  qed
  have B: "fc = None \<or> fc = Some [] \<longrightarrow>
         (\<exists>st1 srt. visit set_order db (Plan (Some ''Seq Scan'') tc pr pw sc (Some r) fc jf sk ps) st = Inr st1
            \<and> seen_tables st1 r = Some existing
            \<and> sort_recs sk (Some r) (seen_tables st1) = Inr srt
            \<and> recommendations st1 = recommendations st
                @ [\<lparr>r_type = AddIndex, r_priority = Medium, r_message = SeqScanNoFilterMsg r\<rparr>]
                @ srt)"
  proof
    assume h: "fc = None \<or> fc = Some []"
    have sq: "seq_scan_recs set_order ''Seq Scan'' (Some r) fc (seen_tables st1) =
        Inr [seq_scan_no_filter_rec r]"
      using h assms(1) by (auto simp: seq_scan_recs_def)
    let ?st2 = "st1\<lparr>recommendations := recommendations st1 @ [seq_scan_no_filter_rec r] @ srt\<rparr>"
    have "visit set_order db (Plan (Some ''Seq Scan'') tc pr pw sc (Some r) fc jf sk ps) st = Inr ?st2"
      using f1 sq srt
      by (simp add: visit_def node_recs_def get_default_def nested_loop_recs_seq_scan)
    moreover have "seen_tables ?st2 r = Some existing" using s1 by simp
    moreover have "sort_recs sk (Some r) (seen_tables ?st2) = Inr srt" using srt by simp
    moreover have "recommendations ?st2 = recommendations st
                @ [\<lparr>r_type = AddIndex, r_priority = Medium, r_message = SeqScanNoFilterMsg r\<rparr>]
                @ srt"
      using r1 by (simp add: seq_scan_no_filter_rec_def)
    ultimately show "\<exists>st1 srt. visit set_order db (Plan (Some ''Seq Scan'') tc pr pw sc (Some r) fc jf sk ps) st = Inr st1
            \<and> seen_tables st1 r = Some existing
            \<and> sort_recs sk (Some r) (seen_tables st1) = Inr srt
            \<and> recommendations st1 = recommendations st
                @ [\<lparr>r_type = AddIndex, r_priority = Medium, r_message = SeqScanNoFilterMsg r\<rparr>]
                @ srt"
      by blast
  qed
  from A B covered_iff[of cols existing] show ?thesis by blast
qed

lemma cols_a_b: "extract_columns_from_filter remdups ''a = 5 AND b = 3'' = [''a'', ''b'']"
  by code_simp

lemma cols_null: "extract_columns_from_filter remdups ''(deleted_at IS NULL)'' = []"
  by code_simp

lemma not_covered_a: "\<not> covered [''a'', ''b''] [(''idx_t_a'', ''CREATE INDEX idx_t_a ON t (a)'')]"
  by code_simp

lemma covered_a_b: "covered [''a'', ''b''] [(''idx_t_a_b'', ''CREATE INDEX idx_t_a_b ON t (a, b)'')]"
  by code_simp

text \<open>
  Containment is textual: the definition of a btree index on column \<open>a\<close> alone, as
  PostgreSQL prints it, contains the letter \<open>b\<close> (in "public" and "btree"), so it counts
  as covering the columns \<open>a\<close> and \<open>b\<close>.
\<close>

lemma btree_definition_covers_b:
  "covered [''a'', ''b''] [(''idx_t_a'', ''CREATE INDEX idx_t_a ON public.t USING btree (a)'')]"
  by code_simp

theorem seq_scan_recommendation_witness:
  "(\<exists>st1. visit remdups (catalog_of [(''idx_t_a'', ''CREATE INDEX idx_t_a ON t (a)'')])
            (Plan (Some ''Seq Scan'') (Some 40) (Some 10) (Some 8) (Some 0) (Some ''t'')
               (Some ''a = 5 AND b = 3'') None None []) init_state = Inr st1
        \<and> recommendations st1 =
            [\<lparr>r_type = AddIndex, r_priority = High,
              r_message = SeqScanFilterMsg ''t'' ''a = 5 AND b = 3'' ''idx_t_a_b'' ''a, b''\<rparr>])
   \<and> (\<exists>st1. visit remdups (catalog_of [(''idx_t_a_b'', ''CREATE INDEX idx_t_a_b ON t (a, b)'')])
            (Plan (Some ''Seq Scan'') (Some 40) (Some 10) (Some 8) (Some 0) (Some ''t'')
               (Some ''a = 5 AND b = 3'') None None []) init_state = Inr st1
        \<and> recommendations st1 = [])
   \<and> (\<exists>st1. visit remdups (catalog_of [])
            (Plan (Some ''Seq Scan'') (Some 40) (Some 10) (Some 8) (Some 0) (Some ''t'')
               None None None []) init_state = Inr st1
        \<and> recommendations st1 =
            [\<lparr>r_type = AddIndex, r_priority = Medium, r_message = SeqScanNoFilterMsg ''t''\<rparr>])"
proof -
  have r: "''t'' \<noteq> []" by simp
  have e: "seen_tables init_state ''t'' = Some rows
         \<or> (seen_tables init_state ''t'' = None
            \<and> catalog_of rows (length (fetch_log init_state)) ''t'' = Inr rows)" for rows
    by (simp add: init_state_def catalog_of_def)
  have s: "sort_recs None (Some ''t'') seen = Inr srt \<longleftrightarrow> srt = []" for seen srt
    by (auto simp: sort_recs_def)
  have f: "''a = 5 AND b = 3'' \<noteq> []" by simp
  from seq_scan_recommendation[where r = "''t''" and st = init_state and existing = "[(''idx_t_a'', ''CREATE INDEX idx_t_a ON t (a)'')]"
      and db = "catalog_of [(''idx_t_a'', ''CREATE INDEX idx_t_a ON t (a)'')]" and cols = "[''a'', ''b'']" and f = "''a = 5 AND b = 3''" and set_order = remdups
      and tc = "Some 40" and pr = "Some 10" and pw = "Some 8" and sc = "Some 0" and jf = None
      and sk = None and ps = "[]" and fc = None, OF r e]
  have 1: "\<exists>st1. visit remdups (catalog_of [(''idx_t_a'', ''CREATE INDEX idx_t_a ON t (a)'')])
            (Plan (Some ''Seq Scan'') (Some 40) (Some 10) (Some 8) (Some 0) (Some ''t'')
               (Some ''a = 5 AND b = 3'') None None []) init_state = Inr st1
        \<and> recommendations st1 =
            [\<lparr>r_type = AddIndex, r_priority = High,
              r_message = SeqScanFilterMsg ''t'' ''a = 5 AND b = 3'' ''idx_t_a_b'' ''a, b''\<rparr>]"
    using cols_a_b not_covered_a by (auto simp: s init_state_def)
  from seq_scan_recommendation[where r = "''t''" and st = init_state and existing = "[(''idx_t_a_b'', ''CREATE INDEX idx_t_a_b ON t (a, b)'')]"
      and db = "catalog_of [(''idx_t_a_b'', ''CREATE INDEX idx_t_a_b ON t (a, b)'')]" and cols = "[''a'', ''b'']" and f = "''a = 5 AND b = 3''" and set_order = remdups
      and tc = "Some 40" and pr = "Some 10" and pw = "Some 8" and sc = "Some 0" and jf = None
      and sk = None and ps = "[]" and fc = None, OF r e]
  have 2: "\<exists>st1. visit remdups (catalog_of [(''idx_t_a_b'', ''CREATE INDEX idx_t_a_b ON t (a, b)'')])
            (Plan (Some ''Seq Scan'') (Some 40) (Some 10) (Some 8) (Some 0) (Some ''t'')
               (Some ''a = 5 AND b = 3'') None None []) init_state = Inr st1
        \<and> recommendations st1 = []"
    using cols_a_b covered_a_b by (auto simp: s init_state_def)
  from seq_scan_recommendation[where r = "''t''" and st = init_state and existing = "[]"
      and db = "catalog_of []" and cols = "[]" and f = "[]" and set_order = remdups
      and tc = "Some 40" and pr = "Some 10" and pw = "Some 8" and sc = "Some 0" and jf = None
      and sk = None and ps = "[]" and fc = None, OF r e]
  have 3: "\<exists>st1. visit remdups (catalog_of [])
            (Plan (Some ''Seq Scan'') (Some 40) (Some 10) (Some 8) (Some 0) (Some ''t'')
               None None None []) init_state = Inr st1
        \<and> recommendations st1 =
            [\<lparr>r_type = AddIndex, r_priority = Medium, r_message = SeqScanNoFilterMsg ''t''\<rparr>]"
    by (auto simp: s init_state_def)
  from 1 2 3 show ?thesis by blast
qed

text \<open>
  C3, the claim as stated fails: the table \<open>t\<close> has no index at all, so no existing
  index contains all candidate columns of the filter \<open>(deleted_at IS NULL)\<close>, and yet
  the scan gets no recommendation, because no column is extracted from that filter.
\<close>

theorem null_filter_no_recommendation:
  "recommend_indexes remdups null_filter_conn ''SELECT * FROM t WHERE deleted_at IS NULL'' = Inr []
   \<and> explain null_filter_conn ''SELECT * FROM t WHERE deleted_at IS NULL''
       = Inr (Plan (Some ''Seq Scan'') (Some 40) (Some 10) (Some 8) (Some 0) (Some ''t'')
                (Some ''(deleted_at IS NULL)'') None None [])
   \<and> get_existing_indexes null_filter_conn 0 ''t'' = Inr []
   \<and> \<not> covered (extract_columns_from_filter remdups ''(deleted_at IS NULL)'') []"
  by (simp add: recommend_indexes_def null_filter_conn_def scan_of_def catalog_of_def init_state_def
      visit_def fetch_indexes_def node_recs_def seq_scan_recs_def nested_loop_recs_def sort_recs_def
      get_default_def cols_null covered_def)






text \<open>
  C10. A "Seq Scan" node without a relation name (missing, or the empty string) fetches
  nothing and appends no recommendation, whatever its filter, join filter and sort key:
  visiting it leaves the state unchanged, and walking it is walking its children.
\<close>

theorem seq_scan_without_relation:
  "(rn = None \<or> rn = Some []) \<longrightarrow>
     visit set_order db (Plan (Some ''Seq Scan'') tc pr pw sc rn fc jf sk ps) st = Inr st
     \<and> walk set_order db (Plan (Some ''Seq Scan'') tc pr pw sc rn fc jf sk ps) st
         = walk_children set_order db ps st"
  by (auto simp: visit_def fetch_indexes_def node_recs_def seq_scan_recs_def nested_loop_recs_def
        sort_recs_def get_default_def split: option.splits)

theorem seq_scan_without_relation_witness:
  "visit remdups (catalog_of [])
     (Plan (Some ''Seq Scan'') (Some 40) (Some 10) (Some 8) (Some 0) None (Some ''(a > 1)'') None
        (Some [''a'']) []) init_state = Inr init_state
   \<and> visit remdups (catalog_of [])
     (Plan (Some ''Seq Scan'') (Some 40) (Some 10) (Some 8) (Some 0) (Some []) None None
        None []) init_state = Inr init_state"
  using seq_scan_without_relation[of None remdups "catalog_of []" "Some 40" "Some 10" "Some 8" "Some 0"
      "Some ''(a > 1)''" None "Some [''a'']" "[]" init_state]
    seq_scan_without_relation[of "Some []" remdups "catalog_of []" "Some 40" "Some 10" "Some 8" "Some 0"
      None None None "[]" init_state]
  by simp

section \<open>Properties of the statistics analyser\<close>

lemma n_plus_one_suspects_eq:
  "n_plus_one_suspects ct mt mr rows acc =
     acc @ map full_analysis_suspect (filter (\<lambda>r. s_calls r > ct \<and> s_mean_time r < mt \<and> s_rows r \<le> mr) rows)"
  by (induction rows arbitrary: acc) auto

lemma detect_loop_eq:
  "detect_loop ct mt mr rows acc =
     acc @ map detect_suspect (filter (\<lambda>r. s_calls r > ct \<and> s_mean_time r < mt \<and> s_rows r \<le> mr) rows)"
  by (induction rows arbitrary: acc) auto

text \<open>
  C9. With the default thresholds (1000 calls, 10 ms, 10 rows) both N+1 searches return
  one suspect for exactly the rows with more than 1000 calls, a mean time below 10 and
  at most 10 rows, in the order of the feed; so a row alone is reported if and only if
  it satisfies the three conditions. A row with 5000 calls, mean time 2 and 1 row is a
  suspect; a row with 5000 calls and mean time 200 is not, whatever its rows.
\<close>

theorem n_plus_one_classification:
  "n_plus_one_suspects default_calls_threshold default_max_mean_time_ms default_max_rows rows [] =
     map full_analysis_suspect
       (filter (\<lambda>r. s_calls r > 1000 \<and> s_mean_time r < 10 \<and> s_rows r \<le> 10) rows)
   \<and> detect_n_plus_one default_calls_threshold default_max_mean_time_ms default_max_rows rows =
     map detect_suspect
       (filter (\<lambda>r. s_calls r > 1000 \<and> s_mean_time r < 10 \<and> s_rows r \<le> 10) rows)
   \<and> (detect_n_plus_one default_calls_threshold default_max_mean_time_ms default_max_rows [r] \<noteq> []
        \<longleftrightarrow> s_calls r > 1000 \<and> s_mean_time r < 10 \<and> s_rows r \<le> 10)
   \<and> (n_plus_one_suspects default_calls_threshold default_max_mean_time_ms default_max_rows [r] [] \<noteq> []
        \<longleftrightarrow> s_calls r > 1000 \<and> s_mean_time r < 10 \<and> s_rows r \<le> 10)
   \<and> detect_n_plus_one default_calls_threshold default_max_mean_time_ms default_max_rows
        [\<lparr>s_query = q, s_calls = 5000, s_mean_time = 2, s_rows = 1\<rparr>] \<noteq> []
   \<and> n_plus_one_suspects default_calls_threshold default_max_mean_time_ms default_max_rows
        [\<lparr>s_query = q, s_calls = 5000, s_mean_time = 2, s_rows = 1\<rparr>] [] \<noteq> []
   \<and> detect_n_plus_one default_calls_threshold default_max_mean_time_ms default_max_rows
        [\<lparr>s_query = q, s_calls = 5000, s_mean_time = 200, s_rows = n\<rparr>] = []
   \<and> n_plus_one_suspects default_calls_threshold default_max_mean_time_ms default_max_rows
        [\<lparr>s_query = q, s_calls = 5000, s_mean_time = 200, s_rows = n\<rparr>] [] = []"
  by (simp add: detect_n_plus_one_def n_plus_one_suspects_eq detect_loop_eq
      default_calls_threshold_def default_max_mean_time_ms_def default_max_rows_def)

theorem n_plus_one_classification_witness:
  "detect_n_plus_one default_calls_threshold default_max_mean_time_ms default_max_rows
     [\<lparr>s_query = ''  SELECT * FROM items WHERE order_id = $1 '', s_calls = 5000, s_mean_time = 2, s_rows = 1\<rparr>,
      \<lparr>s_query = ''SELECT max(id) FROM orders'', s_calls = 5000, s_mean_time = 200, s_rows = 1\<rparr>]
   = [\<lparr>query = ''SELECT * FROM items WHERE order_id = $1'', calls = 5000, mean_exec_time_ms = 2,
       rows_per_call = 1, recommendation = DetectMsg 5000 2\<rparr>]"
proof -
  have s: "strip ''  SELECT * FROM items WHERE order_id = $1 '' = ''SELECT * FROM items WHERE order_id = $1''"
    by code_simp
  have r: "round2 2 = 2" by code_simp
  from n_plus_one_classification[of "[\<lparr>s_query = ''  SELECT * FROM items WHERE order_id = $1 '', s_calls = 5000, s_mean_time = 2, s_rows = 1\<rparr>,
      \<lparr>s_query = ''SELECT max(id) FROM orders'', s_calls = 5000, s_mean_time = 200, s_rows = 1\<rparr>]"]
  show ?thesis by (simp add: detect_suspect_def s r)
qed

end
